theory Spec2Isabelle
  imports Complex_Main
begin

section \<open>JavaScript numbers\<close>

text \<open>
  A JavaScript number is an IEEE-754 double. It is modelled as a real number or one of
  the three special values \<open>NaN\<close>, \<open>Infinity\<close> and \<open>-Infinity\<close>, and every arithmetic
  operation computes the exact real result and rounds it to the nearest real with a
  significand of 53 bits, ties to the even significand (\<open>fl\<close> below). The exponent has no
  bounds here: overflow to \<open>Infinity\<close> and the subnormal numbers are outside the model,
  and the two zeros are one (\<open>+0\<close>). The only divisor of the program is the cell size,
  which is either a truthy number or a square root, so it is never \<open>-0\<close>.
\<close>

text \<open>The power \<open>2^e\<close> for an integer \<open>e\<close>, and the binary exponent of a non-zero real.\<close>

definition pow2 :: "int \<Rightarrow> real" where
  "pow2 e = (if 0 \<le> e then 2 ^ nat e else 1 / 2 ^ nat (- e))"

definition expo :: "real \<Rightarrow> int" where
  "expo x = \<lfloor>log 2 \<bar>x\<bar>\<rfloor>"

text \<open>Rounding to the nearest integer, a tie to the even one.\<close>

definition rne :: "real \<Rightarrow> int" where
  "rne q =
     (let f = \<lfloor>q\<rfloor>; d = q - of_int f
      in if d < 1 / 2 then f
         else if 1 / 2 < d then f + 1
         else if even f then f else f + 1)"

text \<open>
  Rounding to a double: a real \<open>x\<close> with \<open>2^e \<le> |x| < 2^(e+1)\<close> is rounded to a multiple of
  \<open>2^(e-52)\<close>. A real is a double when rounding leaves it as it is.
\<close>

definition fl :: "real \<Rightarrow> real" where
  "fl x =
     (if x = 0 then 0
      else sgn x * (of_int (rne (\<bar>x\<bar> / pow2 (expo x - 52))) * pow2 (expo x - 52)))"

definition is_double :: "real \<Rightarrow> bool" where
  "is_double x = (fl x = x)"

datatype jsnum = Fin real | NaN | PosInf | NegInf

text \<open>
  A value that may also be \<open>null\<close> or \<open>undefined\<close> (both written \<open>None\<close>: the program
  tells them apart nowhere, its default parameters turn \<open>undefined\<close> into \<open>null\<close>).
\<close>

type_synonym jsval = "jsnum option"

text \<open>ToNumber: \<open>null\<close> becomes \<open>0\<close> where the program does arithmetic.\<close>

fun to_number :: "jsval \<Rightarrow> jsnum" where
  "to_number None = Fin 0"
| "to_number (Some n) = n"

text \<open>ToBoolean: \<open>null\<close>, \<open>undefined\<close>, \<open>0\<close> and \<open>NaN\<close> are falsy.\<close>

fun truthy :: "jsval \<Rightarrow> bool" where
  "truthy None = False"
| "truthy (Some (Fin r)) = (r \<noteq> 0)"
| "truthy (Some NaN) = False"
| "truthy (Some PosInf) = True"
| "truthy (Some NegInf) = True"

text \<open>
  \<open>Math.sqrt\<close> and \<open>x ** 2\<close> round; \<open>Math.ceil\<close> and \<open>Math.floor\<close> are exact (the ceiling and
  the floor of a double are doubles).
\<close>

fun js_sqrt :: "jsnum \<Rightarrow> jsnum" where
  "js_sqrt (Fin r) = (if r < 0 then NaN else Fin (fl (sqrt r)))"
| "js_sqrt NaN = NaN"
| "js_sqrt PosInf = PosInf"
| "js_sqrt NegInf = NaN"

fun js_ceil :: "jsnum \<Rightarrow> jsnum" where
  "js_ceil (Fin r) = Fin (of_int \<lceil>r\<rceil>)"
| "js_ceil NaN = NaN"
| "js_ceil PosInf = PosInf"
| "js_ceil NegInf = NegInf"

fun js_floor :: "jsnum \<Rightarrow> jsnum" where
  "js_floor (Fin r) = Fin (of_int \<lfloor>r\<rfloor>)"
| "js_floor NaN = NaN"
| "js_floor PosInf = PosInf"
| "js_floor NegInf = NegInf"

fun js_square :: "jsnum \<Rightarrow> jsnum" where
  "js_square (Fin r) = Fin (fl (r ^ 2))"
| "js_square NaN = NaN"
| "js_square PosInf = PosInf"
| "js_square NegInf = PosInf"

text \<open>The binary operators \<open>+\<close>, \<open>-\<close>, \<open>*\<close> and \<open>/\<close>, each rounding its exact result.\<close>

fun js_neg :: "jsnum \<Rightarrow> jsnum" where
  "js_neg (Fin r) = Fin (- r)"
| "js_neg NaN = NaN"
| "js_neg PosInf = NegInf"
| "js_neg NegInf = PosInf"

fun js_add :: "jsnum \<Rightarrow> jsnum \<Rightarrow> jsnum" where
  "js_add (Fin a) (Fin b) = Fin (fl (a + b))"
| "js_add NaN _ = NaN"
| "js_add _ NaN = NaN"
| "js_add PosInf NegInf = NaN"
| "js_add NegInf PosInf = NaN"
| "js_add PosInf _ = PosInf"
| "js_add _ PosInf = PosInf"
| "js_add NegInf _ = NegInf"
| "js_add _ NegInf = NegInf"

definition js_sub :: "jsnum \<Rightarrow> jsnum \<Rightarrow> jsnum" where
  "js_sub a b = js_add a (js_neg b)"

text \<open>An infinity with the sign of a finite factor; \<open>NaN\<close> when the factor is zero.\<close>

definition signed_inf :: "real \<Rightarrow> jsnum" where
  "signed_inf r = (if r = 0 then NaN else if 0 < r then PosInf else NegInf)"

fun js_mul :: "jsnum \<Rightarrow> jsnum \<Rightarrow> jsnum" where
  "js_mul (Fin a) (Fin b) = Fin (fl (a * b))"
| "js_mul NaN _ = NaN"
| "js_mul _ NaN = NaN"
| "js_mul (Fin a) PosInf = signed_inf a"
| "js_mul (Fin a) NegInf = signed_inf (- a)"
| "js_mul PosInf (Fin b) = signed_inf b"
| "js_mul NegInf (Fin b) = signed_inf (- b)"
| "js_mul PosInf PosInf = PosInf"
| "js_mul NegInf NegInf = PosInf"
| "js_mul PosInf NegInf = NegInf"
| "js_mul NegInf PosInf = NegInf"

fun js_div :: "jsnum \<Rightarrow> jsnum \<Rightarrow> jsnum" where
  "js_div (Fin a) (Fin b) = (if b = 0 then signed_inf a else Fin (fl (a / b)))"
| "js_div NaN _ = NaN"
| "js_div _ NaN = NaN"
| "js_div (Fin a) PosInf = Fin 0"
| "js_div (Fin a) NegInf = Fin 0"
| "js_div PosInf (Fin b) = (if 0 \<le> b then PosInf else NegInf)"
| "js_div NegInf (Fin b) = (if 0 \<le> b then NegInf else PosInf)"
| "js_div PosInf _ = NaN"
| "js_div NegInf _ = NaN"

text \<open>The comparisons \<open><=\<close>, \<open>>=\<close> and \<open>>\<close>: false as soon as one side is \<open>NaN\<close>.\<close>

fun js_le :: "jsnum \<Rightarrow> jsnum \<Rightarrow> bool" where
  "js_le (Fin a) (Fin b) = (a \<le> b)"
| "js_le NaN _ = False"
| "js_le _ NaN = False"
| "js_le NegInf _ = True"
| "js_le _ PosInf = True"
| "js_le PosInf _ = False"
| "js_le _ NegInf = False"

definition js_ge :: "jsnum \<Rightarrow> jsnum \<Rightarrow> bool" where
  "js_ge a b = js_le b a"

definition js_gt :: "jsnum \<Rightarrow> jsnum \<Rightarrow> bool" where
  "js_gt a b = (js_le b a \<and> a \<noteq> b)"

section \<open>The host drawing surface\<close>

text \<open>
  The line style of the surface: the five values that \<open>lineStyle\<close> takes and that the
  property \<open>line\<close> holds.
\<close>

record lineStyleT =
  ls_width :: jsnum
  ls_color :: jsnum
  ls_alpha :: jsnum
  ls_alignment :: jsnum
  ls_native :: bool

definition DEFAULT_LINE_STYLE :: lineStyleT where
  "DEFAULT_LINE_STYLE =
     \<lparr>ls_width = Fin 1, ls_color = Fin 16777215, ls_alpha = Fin 1,
      ls_alignment = Fin (1 / 2), ls_native = True\<rparr>"

type_synonym point = "jsval \<times> jsval"

text \<open>A drawn segment: its two end points and the line style it was drawn with.\<close>

type_synonym segment = "point \<times> point \<times> lineStyleT"

section \<open>The grid object\<close>

text \<open>
  The object is one record: the fields the class assigns (the source's \<open>_name\<close> is
  \<open>p_name\<close> here) and the part of the inherited \<open>PIXI.Graphics\<close> state the class
  reads and writes: the position \<open>x\<close>, \<open>y\<close>, the property \<open>line\<close>, the pen, the
  segments drawn so far, the style \<open>clear\<close> reverts to, and the flag \<open>interactive\<close>.
\<close>

record grid =
  p_cellSize :: jsval
  p_amtLines :: jsval
  p_gridWidth :: jsnum
  p_doCorrectWidth :: bool
  p_correctedWidth :: jsval
  p_drawBoundaries :: bool
  host_x :: jsnum
  host_y :: jsnum
  host_line :: lineStyleT
  host_pen :: point
  host_segments :: "segment list"
  host_default_line :: lineStyleT
  interactive :: bool

subsection \<open>Accessors\<close>

definition set_cellSize :: "jsval \<Rightarrow> grid \<Rightarrow> grid" where
  "set_cellSize v this =
     this\<lparr>p_cellSize :=
       (if truthy v then v else Some (js_sqrt (to_number (p_correctedWidth this))))\<rparr>"

definition cellSize :: "grid \<Rightarrow> jsval" where
  "cellSize this = p_cellSize this"

definition amtLines :: "grid \<Rightarrow> jsnum" where
  "amtLines this = js_div (to_number (p_correctedWidth this)) (to_number (cellSize this))"

record boundsT =
  x1 :: jsnum
  y1 :: jsnum
  x2 :: jsnum
  y2 :: jsnum

definition bounds :: "grid \<Rightarrow> boundsT" where
  "bounds this =
     \<lparr>x1 = host_x this,
      y1 = host_y this,
      x2 = js_add (host_x this) (to_number (p_correctedWidth this)),
      y2 = js_add (host_y this) (to_number (p_correctedWidth this))\<rparr>"

definition gridWidth :: "grid \<Rightarrow> jsval" where
  "gridWidth this = p_correctedWidth this"

subsection \<open>The width correction\<close>

text \<open>
  The method has no \<open>return\<close> in its \<open>if\<close>: the second assignment always runs, after
  the first one when the flag is off.
\<close>

definition p_correctWidth :: "grid \<Rightarrow> grid" where
  "p_correctWidth this =
     (let this1 = (if \<not> p_doCorrectWidth this
                   then this\<lparr>p_correctedWidth := Some (p_gridWidth this)\<rparr>
                   else this)
      in this1\<lparr>p_correctedWidth := Some (js_square (js_ceil (js_sqrt (p_gridWidth this1))))\<rparr>)"

subsection \<open>Surface operations\<close>

text \<open>
  Modelled from the spec: the drawing surface is the external graphics library, of which
  the source holds only the calls. \<open>lineStyle\<close> sets the five values of the property
  \<open>line\<close>; \<open>clear\<close> removes all drawn geometry and reverts the style to the surface's own
  default; \<open>moveTo\<close> places the pen; \<open>lineTo\<close> draws a segment from the pen in the
  current style and leaves the pen at its end; \<open>endFill\<close> changes neither the segments
  nor the line style.
\<close>

definition lineStyle :: "jsnum \<Rightarrow> jsnum \<Rightarrow> jsnum \<Rightarrow> jsnum \<Rightarrow> bool \<Rightarrow> grid \<Rightarrow> grid" where
  "lineStyle w c a al n this =
     this\<lparr>host_line := \<lparr>ls_width = w, ls_color = c, ls_alpha = a,
                          ls_alignment = al, ls_native = n\<rparr>\<rparr>"

definition clear :: "grid \<Rightarrow> grid" where
  "clear this =
     this\<lparr>host_segments := [], host_line := host_default_line this,
          host_pen := (Some (Fin 0), Some (Fin 0))\<rparr>"

definition moveTo :: "jsval \<Rightarrow> jsval \<Rightarrow> grid \<Rightarrow> grid" where
  "moveTo x y this = this\<lparr>host_pen := (x, y)\<rparr>"

definition lineTo :: "jsval \<Rightarrow> jsval \<Rightarrow> grid \<Rightarrow> grid" where
  "lineTo x y this =
     this\<lparr>host_segments := host_segments this @ [(host_pen this, (x, y), host_line this)],
          host_pen := (x, y)\<rparr>"

definition endFill :: "grid \<Rightarrow> grid" where
  "endFill this = this"

subsection \<open>The constructor\<close>

text \<open>
  \<open>host\<close> is the object as \<open>super()\<close> leaves it: its own fields are not assigned yet,
  the constructor overwrites each of them before it is read.
\<close>

definition PixiJSGrid ::
  "grid \<Rightarrow> jsnum \<Rightarrow> jsval \<Rightarrow> lineStyleT option \<Rightarrow> bool \<Rightarrow> bool \<Rightarrow> grid" where
  "PixiJSGrid host width cellSize_arg lineConfig doCorrectWidth drawBoundaries =
     (let this = host\<lparr>p_cellSize := None, p_amtLines := None\<rparr>;
          this = this\<lparr>p_gridWidth := width, p_doCorrectWidth := doCorrectWidth,
                      p_correctedWidth := None\<rparr>;
          this = p_correctWidth this;
          this = this\<lparr>p_drawBoundaries := drawBoundaries\<rparr>;
          this = set_cellSize cellSize_arg this;
          lConfig = (case lineConfig of None \<Rightarrow> DEFAULT_LINE_STYLE | Some c \<Rightarrow> c);
          this = lineStyle (ls_width lConfig) (ls_color lConfig) (ls_alpha lConfig)
                   (ls_alignment lConfig) (ls_native lConfig) this
      in this\<lparr>interactive := True\<rparr>)"

text \<open>A fresh surface at the origin, before the constructor has run.\<close>

definition fresh_host :: "jsnum \<Rightarrow> jsnum \<Rightarrow> lineStyleT \<Rightarrow> grid" where
  "fresh_host px py dflt =
     \<lparr>p_cellSize = None, p_amtLines = None, p_gridWidth = NaN, p_doCorrectWidth = False,
      p_correctedWidth = None, p_drawBoundaries = False,
      host_x = px, host_y = py, host_line = dflt,
      host_pen = (Some (Fin 0), Some (Fin 0)), host_segments = [],
      host_default_line = dflt, interactive = False\<rparr>"

subsection \<open>Clearing and drawing\<close>

text \<open>What a method returns: the object itself, or \<open>undefined\<close>.\<close>

datatype ret = This | Undefined

definition clearGrid :: "bool \<Rightarrow> grid \<Rightarrow> ret \<times> grid" where
  "clearGrid retainLineStyle this =
     (let l = host_line this;
          this = clear this
      in if \<not> retainLineStyle then (Undefined, this)
         else (This, lineStyle (ls_width l) (ls_color l) (ls_alpha l)
                       (ls_alignment l) (ls_native l) this))"

text \<open>One round of the loop of \<open>drawGrid\<close>: the column, then the row, of index \<open>i\<close>.\<close>

definition drawGrid_body :: "int \<Rightarrow> grid \<Rightarrow> grid" where
  "drawGrid_body i this =
     (let startCoord = Some (js_mul (Fin (of_int i)) (to_number (p_cellSize this)));
          this = moveTo startCoord (Some (Fin 0)) this;
          this = lineTo startCoord (p_correctedWidth this) this;
          this = moveTo (Some (Fin 0)) startCoord this;
          this = lineTo (p_correctedWidth this) startCoord this
      in this)"

text \<open>
  The loop tests \<open>i <= this.amtLines - (this._drawBoundaries ? 0 : 1)\<close> before every
  round. It need not end (the bound may be \<open>Infinity\<close>), so it lives in the option
  monad: \<open>None\<close> is a loop that runs forever. The counter \<open>i\<close> starts at 0 or 1 and grows
  by 1: it is an integer here, which \<open>i += 1\<close> computes exactly as long as \<open>i\<close> is below
  \<open>2^53\<close>.
\<close>

partial_function (option) drawGrid_loop :: "int \<Rightarrow> grid \<Rightarrow> grid option" where
  "drawGrid_loop i this =
     (if js_le (Fin (of_int i))
           (js_sub (amtLines this) (Fin (if p_drawBoundaries this then 0 else 1)))
      then drawGrid_loop (i + 1) (drawGrid_body i this)
      else Some this)"

definition drawGrid :: "grid \<Rightarrow> (ret \<times> grid) option" where
  "drawGrid this =
     (let this = snd (clearGrid True this)
      in case drawGrid_loop (if p_drawBoundaries this then 0 else 1) this of
           None \<Rightarrow> None
         | Some this \<Rightarrow> Some (This, endFill this))"

subsection \<open>Cell coordinates and the pointer\<close>

record cellT =
  cell_x :: jsnum
  cell_y :: jsnum

definition getCellCoordinates :: "jsnum \<Rightarrow> jsnum \<Rightarrow> grid \<Rightarrow> cellT" where
  "getCellCoordinates x y this =
     \<lparr>cell_x = js_floor (js_div (js_sub x (x1 (bounds this))) (to_number (cellSize this))),
      cell_y = js_floor (js_div (js_sub y (y1 (bounds this))) (to_number (cellSize this)))\<rparr>"

text \<open>The event of the host: the class reads \<open>evt.data.global\<close> only.\<close>

record interactionEvent =
  global_x :: jsnum
  global_y :: jsnum

text \<open>
  The listener the constructor registers for \<open>mousemove\<close>. The hook \<open>onMousemove\<close> is
  empty and meant to be overridden, so the listener's result is the call it makes:
  \<open>Some (evt, gridCoords)\<close> when the hook is invoked with these arguments, \<open>None\<close>
  when it is not.
\<close>

definition mousemove_listener :: "interactionEvent \<Rightarrow> grid \<Rightarrow> (interactionEvent \<times> cellT) option" where
  "mousemove_listener evt this =
     (let mx = global_x evt; my = global_y evt
      in if js_ge mx (x1 (bounds this)) \<and> js_le mx (x2 (bounds this)) \<and>
            js_ge my (y1 (bounds this)) \<and> js_le my (y2 (bounds this))
         then Some (evt, getCellCoordinates mx my this)
         else None)"

subsection \<open>Example objects\<close>

text \<open>A surface at the origin whose own default line style has width 0.\<close>

definition host0 :: grid where
  "host0 = fresh_host (Fin 0) (Fin 0)
     \<lparr>ls_width = Fin 0, ls_color = Fin 0, ls_alpha = Fin 1,
      ls_alignment = Fin (1 / 2), ls_native = False\<rparr>"

text \<open>
  \<open>new PixiJSGrid(10)\<close>, and \<open>new PixiJSGrid(16, 3)\<close>, whose cell size does not divide
  its side.
\<close>

definition grid10 :: grid where
  "grid10 = PixiJSGrid host0 (Fin 10) None None True True"

definition grid16_3 :: grid where
  "grid16_3 = PixiJSGrid host0 (Fin 16) (Some (Fin 3)) None True True"

text \<open>\<open>new PixiJSGrid(-4)\<close>: the square root of its width is \<open>NaN\<close>.\<close>

definition grid_neg4 :: grid where
  "grid_neg4 = PixiJSGrid host0 (Fin (- 4)) None None True True"






definition two_to_54 :: real where
  "two_to_54 = 2 ^ 54"

text \<open>
  Two grids away from the origin: one at \<open>x = 1\<close> with the cell size \<open>2^-53\<close>, one at
  \<open>x = -2^-54\<close> with the cell size 1.
\<close>

definition host_at :: "real \<Rightarrow> real \<Rightarrow> grid" where
  "host_at px py = fresh_host (Fin px) (Fin py)
     \<lparr>ls_width = Fin 0, ls_color = Fin 0, ls_alpha = Fin 1,
      ls_alignment = Fin (1 / 2), ls_native = False\<rparr>"



text \<open>A grid far from the origin, at \<open>x = 2^54\<close>.\<close>

definition grid_far :: grid where
  "grid_far = PixiJSGrid (host_at two_to_54 0) (Fin 16) None None True True"

section \<open>Notions for the statements\<close>

text \<open>The two segments one round of the loop adds: the column and the row of index \<open>i\<close>.\<close>

definition grid_lines :: "grid \<Rightarrow> int \<Rightarrow> segment list" where
  "grid_lines this i =
     (let s = Some (js_mul (Fin (of_int i)) (to_number (p_cellSize this)));
          w = p_correctedWidth this;
          z = Some (Fin 0)
      in [((s, z), (s, w), host_line this), ((z, s), (w, s), host_line this)])"

text \<open>Two states of the object that differ in the drawn segments and the pen at most.\<close>

definition same_frame :: "grid \<Rightarrow> grid \<Rightarrow> bool" where
  "same_frame g g' =
     (g'\<lparr>host_segments := [], host_pen := (None, None)\<rparr> =
      g\<lparr>host_segments := [], host_pen := (None, None)\<rparr>)"

text \<open>
  The lines of a grid with finite cell size \<open>c\<close> and finite side \<open>W\<close>: the column of index
  \<open>i\<close> runs from \<open>(i * c, 0)\<close> to \<open>(i * c, W)\<close>, the row from \<open>(0, i * c)\<close> to \<open>(W, i * c)\<close>.
\<close>

definition column_line :: "lineStyleT \<Rightarrow> real \<Rightarrow> real \<Rightarrow> int \<Rightarrow> segment" where
  "column_line st c W i =
     ((Some (Fin (of_int i * c)), Some (Fin 0)), (Some (Fin (of_int i * c)), Some (Fin W)), st)"

definition row_line :: "lineStyleT \<Rightarrow> real \<Rightarrow> real \<Rightarrow> int \<Rightarrow> segment" where
  "row_line st c W i =
     ((Some (Fin 0), Some (Fin (of_int i * c))), (Some (Fin W), Some (Fin (of_int i * c))), st)"


text \<open>A segment is a column when both ends have the same \<open>x\<close>; the columns \<open>drawGrid\<close> leaves.\<close>

definition is_column :: "segment \<Rightarrow> bool" where
  "is_column s = (fst (fst s) = fst (fst (snd s)))"

definition columns_drawn :: "grid \<Rightarrow> nat option" where
  "columns_drawn this =
     map_option (length \<circ> filter is_column \<circ> host_segments \<circ> snd) (drawGrid this)"

text \<open>The comparison \<open><\<close>.\<close>

definition js_lt :: "jsnum \<Rightarrow> jsnum \<Rightarrow> bool" where
  "js_lt a b = (js_le a b \<and> a \<noteq> b)"

section \<open>Rounding to a double\<close>

lemma pow2_powr: "pow2 e = 2 powr (real_of_int e)"
  by (simp add: pow2_def powr_real_of_int field_simps)

lemma pow2_pos [simp]: "0 < pow2 e"
  by (simp add: pow2_powr)

lemma pow2_nonneg [simp]: "0 \<le> pow2 e"
  by (simp add: pow2_powr)

lemma pow2_add: "pow2 (a + b) = pow2 a * pow2 b"
  by (simp add: pow2_powr powr_add)

lemma pow2_le_iff [simp]: "pow2 a \<le> pow2 b \<longleftrightarrow> a \<le> b"
  by (simp add: pow2_powr)

lemma pow2_less_iff [simp]: "pow2 a < pow2 b \<longleftrightarrow> a < b"
  by (simp add: pow2_powr)

lemma pow2_0 [simp]: "pow2 0 = 1"
  by (simp add: pow2_def)

lemma pow2_nat: "pow2 (int n) = 2 ^ n"
  by (simp add: pow2_def)

lemma expo_bounds:
  assumes "x \<noteq> 0"
  shows "pow2 (expo x) \<le> \<bar>x\<bar>" and "\<bar>x\<bar> < pow2 (expo x + 1)"
proof -
  have pos: "0 < \<bar>x\<bar>" using assms by simp
  have "real_of_int (expo x) \<le> log 2 \<bar>x\<bar>" by (simp add: expo_def)
  then have "2 powr real_of_int (expo x) \<le> 2 powr log 2 \<bar>x\<bar>" by simp
  then show "pow2 (expo x) \<le> \<bar>x\<bar>" using pos by (simp add: pow2_powr)
  have "log 2 \<bar>x\<bar> < real_of_int (expo x + 1)" by (simp add: expo_def)
  then have "2 powr log 2 \<bar>x\<bar> < 2 powr real_of_int (expo x + 1)"
    by (subst powr_less_cancel_iff) simp_all
  then show "\<bar>x\<bar> < pow2 (expo x + 1)" using pos by (simp add: pow2_powr)
qed

lemma expo_unique:
  assumes "pow2 e \<le> \<bar>x\<bar>" and "\<bar>x\<bar> < pow2 (e + 1)"
  shows "expo x = e"
proof -
  have pos: "0 < \<bar>x\<bar>" using assms(1) pow2_pos[of e] by linarith
  have "2 powr real_of_int e \<le> 2 powr log 2 \<bar>x\<bar>"
    using assms(1) pos by (simp add: pow2_powr)
  then have a: "real_of_int e \<le> log 2 \<bar>x\<bar>" by simp
  have "2 powr log 2 \<bar>x\<bar> < 2 powr real_of_int (e + 1)"
    using assms(2) pos by (simp add: pow2_powr)
  then have b: "log 2 \<bar>x\<bar> < real_of_int (e + 1)"
    by (subst (asm) powr_less_cancel_iff) simp_all
  from a b show ?thesis unfolding expo_def by (simp add: floor_eq_iff)
qed

lemma expo_less:
  assumes "x \<noteq> 0" and "\<bar>x\<bar> < pow2 n"
  shows "expo x < n"
proof -
  have "pow2 (expo x) < pow2 n" using expo_bounds(1)[OF assms(1)] assms(2) by linarith
  then show ?thesis by simp
qed

lemma rne_err: "\<bar>real_of_int (rne q) - q\<bar> \<le> 1 / 2"
proof -
  have "real_of_int \<lfloor>q\<rfloor> \<le> q" "q < real_of_int \<lfloor>q\<rfloor> + 1" by linarith+
  then show ?thesis
    by (auto simp: rne_def Let_def abs_le_iff)
qed

lemma rne_of_int [simp]: "rne (real_of_int n) = n"
  by (simp add: rne_def)

lemma rne_mono:
  assumes "q \<le> q'"
  shows "rne q \<le> rne q'"
proof (rule ccontr)
  assume "\<not> rne q \<le> rne q'"
  then have "rne q' + 1 \<le> rne q" by simp
  then have gap: "real_of_int (rne q') + 1 \<le> real_of_int (rne q)"
    by (metis of_int_1 of_int_add of_int_le_iff)
  have a: "real_of_int (rne q) - 1 / 2 \<le> q" using rne_err[of q] by linarith
  have b: "q' \<le> real_of_int (rne q') + 1 / 2" using rne_err[of q'] by linarith
  from gap a b assms have eq: "q = q'" by linarith
  with \<open>\<not> rne q \<le> rne q'\<close> show False by simp
qed



lemma rne_tie_odd:
  assumes "q = real_of_int n + 1 / 2" and "odd n"
  shows "rne q = n + 1"
proof -
  from assms have "\<lfloor>q\<rfloor> = n" by (simp add: floor_eq_iff)
  with assms show ?thesis by (simp add: rne_def Let_def)
qed

lemma fl_0 [simp]: "fl 0 = 0"
  by (simp add: fl_def)

lemma expo_minus [simp]: "expo (- x) = expo x"
  by (simp add: expo_def)

lemma fl_minus: "fl (- x) = - fl x"
  by (simp add: fl_def sgn_minus)

lemma fl_pos_eq:
  assumes "pow2 e \<le> x" and "x < pow2 (e + 1)"
  shows "fl x = real_of_int (rne (x / pow2 (e - 52))) * pow2 (e - 52)"
proof -
  have pos: "0 < x" using assms(1) pow2_pos[of e] by linarith
  then have "expo x = e" using assms by (intro expo_unique) simp_all
  with pos show ?thesis by (simp add: fl_def)
qed

lemma pow2_52: "pow2 52 = 4503599627370496" and pow2_53: "pow2 53 = 9007199254740992"
  by (simp_all add: pow2_def)

lemma pow2_neq0 [simp]: "pow2 e \<noteq> 0"
  using pow2_pos[of e] by linarith

lemma rne_numeral [simp]: "rne (numeral k) = numeral k"
  using rne_of_int[of "numeral k"] by simp

lemma pow2_split53: "pow2 (e + 1) = pow2 53 * pow2 (e - 52)"
proof -
  have "e + 1 = 53 + (e - 52)" by simp
  then show ?thesis by (simp only: pow2_add)
qed

lemma scaled_range:
  assumes "pow2 e \<le> x" and "x < pow2 (e + 1)"
  shows "pow2 52 \<le> x / pow2 (e - 52)" and "x / pow2 (e - 52) < pow2 53"
proof -
  have "pow2 e = pow2 52 * pow2 (e - 52)" using pow2_add[of 52 "e - 52"] by simp
  with assms(1) show "pow2 52 \<le> x / pow2 (e - 52)" by (simp add: le_divide_eq)
  have "pow2 (e + 1) = pow2 53 * pow2 (e - 52)" by (rule pow2_split53)
  with assms(2) show "x / pow2 (e - 52) < pow2 53" by (simp add: divide_less_eq)
qed

lemma rne_scaled_range:
  assumes "pow2 e \<le> x" and "x < pow2 (e + 1)"
  shows "4503599627370496 \<le> rne (x / pow2 (e - 52))"
    and "rne (x / pow2 (e - 52)) \<le> 9007199254740992"
proof -
  from scaled_range[OF assms] have a: "real_of_int 4503599627370496 \<le> x / pow2 (e - 52)"
    and b: "x / pow2 (e - 52) \<le> real_of_int 9007199254740992"
    by (simp_all add: pow2_52 pow2_53)
  from rne_mono[OF a] show "4503599627370496 \<le> rne (x / pow2 (e - 52))" by simp
  from rne_mono[OF b] show "rne (x / pow2 (e - 52)) \<le> 9007199254740992" by simp
qed

lemma fl_range:
  assumes "pow2 e \<le> x" and "x < pow2 (e + 1)"
  shows "pow2 e \<le> fl x" and "fl x \<le> pow2 (e + 1)"
proof -
  let ?u = "pow2 (e - 52)"
  let ?n = "rne (x / ?u)"
  have fl: "fl x = real_of_int ?n * ?u" using assms by (rule fl_pos_eq)
  have lo: "pow2 52 \<le> real_of_int ?n" using rne_scaled_range(1)[OF assms] by (simp add: pow2_52)
  have hi: "real_of_int ?n \<le> pow2 53" using rne_scaled_range(2)[OF assms] by (simp add: pow2_53)
  have "pow2 e = pow2 52 * ?u" using pow2_add[of 52 "e - 52"] by simp
  also have "\<dots> \<le> real_of_int ?n * ?u" using lo by (simp add: mult_right_mono)
  finally show "pow2 e \<le> fl x" by (simp add: fl)
  have "real_of_int ?n * ?u \<le> pow2 53 * ?u" using hi by (simp add: mult_right_mono)
  also have "\<dots> = pow2 (e + 1)" by (simp only: pow2_split53)
  finally show "fl x \<le> pow2 (e + 1)" by (simp add: fl)
qed

lemma fl_pos: "0 < x \<Longrightarrow> 0 < fl x"
proof -
  assume "0 < x"
  then have "x \<noteq> 0" by simp
  from expo_bounds[OF this] \<open>0 < x\<close> have "pow2 (expo x) \<le> x" "x < pow2 (expo x + 1)" by simp_all
  from fl_range(1)[OF this] pow2_pos[of "expo x"] show ?thesis by linarith
qed

lemma fl_nonneg: "0 \<le> x \<Longrightarrow> 0 \<le> fl x"
  using fl_pos[of x] by (cases "x = 0") (simp_all add: less_eq_real_def)

lemma fl_mono_pos:
  assumes "0 < x" and "x \<le> y"
  shows "fl x \<le> fl y"
proof -
  have x0: "x \<noteq> 0" and y0: "y \<noteq> 0" and ypos: "0 < y" using assms by simp_all
  from expo_bounds[OF x0] assms(1) have bx: "pow2 (expo x) \<le> x" "x < pow2 (expo x + 1)" by simp_all
  from expo_bounds[OF y0] ypos have by': "pow2 (expo y) \<le> y" "y < pow2 (expo y + 1)" by simp_all
  have "pow2 (expo x) < pow2 (expo y + 1)" using bx(1) assms(2) by'(2) by linarith
  then have le: "expo x \<le> expo y" by simp
  show ?thesis
  proof (cases "expo x = expo y")
    case True
    let ?u = "pow2 (expo x - 52)"
    have "x / ?u \<le> y / ?u" using assms(2) by (simp add: divide_right_mono)
    then have "rne (x / ?u) \<le> rne (y / ?u)" by (rule rne_mono)
    then have "real_of_int (rne (x / ?u)) * ?u \<le> real_of_int (rne (y / ?u)) * ?u"
      by (simp add: mult_right_mono)
    then show ?thesis
      using fl_pos_eq[OF bx] fl_pos_eq[OF by'] True by simp
  next
    case False
    with le have "expo x + 1 \<le> expo y" by simp
    then have "pow2 (expo x + 1) \<le> pow2 (expo y)" by simp
    with fl_range(2)[OF bx] fl_range(1)[OF by'] show ?thesis by linarith
  qed
qed

lemma fl_mono:
  assumes "x \<le> y"
  shows "fl x \<le> fl y"
proof -
  consider "0 < x" | "y < 0" | "x \<le> 0" "0 \<le> y" by linarith
  then show ?thesis
  proof cases
    case 1
    then show ?thesis using assms by (rule fl_mono_pos)
  next
    case 2
    then have "0 < - y" "- y \<le> - x" using assms by simp_all
    then have "fl (- y) \<le> fl (- x)" by (rule fl_mono_pos)
    then show ?thesis by (simp add: fl_minus)
  next
    case 3
    then have "fl x \<le> 0" using fl_nonneg[of "- x"] by (simp add: fl_minus)
    moreover have "0 \<le> fl y" using 3 by (simp add: fl_nonneg)
    ultimately show ?thesis by linarith
  qed
qed

lemma fl_fix_pos:
  assumes "0 < m" and "m < 9007199254740992"
  shows "fl (real_of_int m * pow2 j) = real_of_int m * pow2 j"
proof -
  define x where "x = real_of_int m * pow2 j"
  define e where "e = expo x"
  define u where "u = pow2 (e - 52)"
  have xpos: "0 < x" using assms(1) by (simp add: x_def)
  then have x0: "x \<noteq> 0" by linarith
  from expo_bounds[OF x0] xpos have bx: "pow2 e \<le> x" "x < pow2 (e + 1)"
    by (simp_all add: e_def)
  have "real_of_int m < pow2 53" using assms(2) by (simp add: pow2_53)
  then have "x < pow2 53 * pow2 j" by (simp add: x_def mult_strict_right_mono)
  then have "x < pow2 (j + 53)" using pow2_add[of 53 j] by (simp add: add.commute)
  with bx(1) have "pow2 e < pow2 (j + 53)" by linarith
  then have k: "0 \<le> j + 52 - e" by simp
  define k where "k = nat (j + 52 - e)"
  have "j = int k + (e - 52)" using k by (simp add: k_def)
  then have "pow2 j = pow2 (int k) * pow2 (e - 52)" by (simp only: pow2_add)
  then have pj: "pow2 j = 2 ^ k * u" by (simp add: pow2_nat u_def)
  have upos: "0 < u" by (simp add: u_def)
  have "x / u = real_of_int m * 2 ^ k" using upos by (simp add: x_def pj)
  also have "\<dots> = real_of_int (m * 2 ^ k)" by simp
  finally have "rne (x / u) = m * 2 ^ k" by (simp only: rne_of_int)
  then have "fl x = real_of_int (m * 2 ^ k) * u"
    using fl_pos_eq[OF bx] by (simp add: u_def)
  also have "\<dots> = x" by (simp add: x_def pj)
  finally show ?thesis by (simp add: x_def)
qed

lemma fl_fix:
  assumes "\<bar>m\<bar> \<le> 9007199254740992"
  shows "fl (real_of_int m * pow2 j) = real_of_int m * pow2 j"
proof -
  have top: "fl (9007199254740992 * pow2 j) = 9007199254740992 * pow2 j"
  proof -
    have "9007199254740992 * pow2 j = real_of_int 1 * pow2 (j + 53)"
      using pow2_add[of 53 j] by (simp add: pow2_53 add.commute)
    then show ?thesis using fl_fix_pos[of 1 "j + 53"] by simp
  qed
  consider "m = 0" | "0 < m" "m < 9007199254740992" | "m = 9007199254740992"
    | "m < 0" "- m < 9007199254740992" | "m = - 9007199254740992"
    using assms by linarith
  then show ?thesis
  proof cases
    case 1
    then show ?thesis by simp
  next
    case 2
    then show ?thesis by (rule fl_fix_pos)
  next
    case 3
    then show ?thesis using top by simp
  next
    case 4
    then have "fl (real_of_int (- m) * pow2 j) = real_of_int (- m) * pow2 j"
      by (intro fl_fix_pos) simp_all
    then show ?thesis using fl_minus[of "real_of_int m * pow2 j"] by simp
  next
    case 5
    then show ?thesis using top fl_minus[of "9007199254740992 * pow2 j"] by simp
  qed
qed

lemma fl_of_int:
  "\<bar>n\<bar> \<le> 9007199254740992 \<Longrightarrow> fl (real_of_int n) = real_of_int n"
  using fl_fix[of n 0] by simp

lemma fl_idem [simp]: "fl (fl x) = fl x"
proof -
  have pos: "fl (fl y) = fl y" if "0 < y" for y
  proof -
    from that have y0: "y \<noteq> 0" by simp
    let ?e = "expo y"
    from expo_bounds[OF y0] that have b: "pow2 ?e \<le> y" "y < pow2 (?e + 1)" by simp_all
    have "\<bar>rne (y / pow2 (?e - 52))\<bar> \<le> 9007199254740992"
      using rne_scaled_range[OF b] by simp
    from fl_fix[OF this, of "?e - 52"] show ?thesis using fl_pos_eq[OF b] by simp
  qed
  consider "x = 0" | "0 < x" | "x < 0" by linarith
  then show ?thesis
  proof cases
    case 3
    then have "fl (fl (- x)) = fl (- x)" by (intro pos) simp
    then show ?thesis by (simp add: fl_minus)
  qed (simp_all add: pos)
qed

lemma fl_abs_err:
  assumes "x \<noteq> 0"
  shows "\<bar>fl x - x\<bar> \<le> pow2 (expo x - 53)"
proof -
  have pos: "\<bar>fl y - y\<bar> \<le> pow2 (expo y - 53)" if "0 < y" for y
  proof -
    from that have y0: "y \<noteq> 0" by simp
    let ?e = "expo y"
    let ?u = "pow2 (?e - 52)"
    from expo_bounds[OF y0] that have b: "pow2 ?e \<le> y" "y < pow2 (?e + 1)" by simp_all
    have "fl y - y = (real_of_int (rne (y / ?u)) - y / ?u) * ?u"
      using fl_pos_eq[OF b] by (simp add: left_diff_distrib)
    then have "\<bar>fl y - y\<bar> = \<bar>real_of_int (rne (y / ?u)) - y / ?u\<bar> * ?u"
      by (simp add: abs_mult)
    also have "\<dots> \<le> 1 / 2 * ?u" using rne_err[of "y / ?u"] by (intro mult_right_mono) simp_all
    also have "\<dots> = pow2 (?e - 53)" using pow2_add[of 1 "?e - 53"] by (simp add: pow2_def)
    finally show ?thesis .
  qed
  consider "0 < x" | "x < 0" using assms by linarith
  then show ?thesis
  proof cases
    case 1
    then show ?thesis by (rule pos)
  next
    case 2
    then have "\<bar>fl (- x) - (- x)\<bar> \<le> pow2 (expo (- x) - 53)" by (intro pos) simp
    then show ?thesis by (simp add: fl_minus abs_minus_commute)
  qed
qed

lemma fl_between:
  assumes "fl a = a" and "fl b = b" and "a \<le> x" and "x \<le> b"
  shows "a \<le> fl x" and "fl x \<le> b"
  using fl_mono[OF assms(3)] fl_mono[OF assms(4)] assms(1,2) by simp_all

section \<open>Arithmetic facts\<close>

lemma fl_numeral [simp]:
  "(numeral k :: int) \<le> 9007199254740992 \<Longrightarrow> fl (numeral k) = numeral k"
  using fl_of_int[of "numeral k"] by simp

lemma fl_1 [simp]: "fl 1 = 1"
  using fl_of_int[of 1] by simp

lemma fl_neg_numeral [simp]:
  "(numeral k :: int) \<le> 9007199254740992 \<Longrightarrow> fl (- numeral k) = - numeral k"
  by (simp add: fl_minus)

lemma sqrt_16: "sqrt 16 = 4"
  using real_sqrt_abs[of 4] by simp

lemma ceiling_fl_sqrt_10: "\<lceil>fl (sqrt 10)\<rceil> = 4"
proof -
  have lo: "(25 / 8 :: real) \<le> sqrt 10" by (rule real_le_rsqrt) (simp add: power2_eq_square)
  have hi: "sqrt 10 \<le> (4::real)" by (rule real_le_lsqrt) simp_all
  have "fl (25 / 8) = 25 / 8" using fl_fix[of 25 "- 3"] by (simp add: pow2_def)
  then have "25 / 8 \<le> fl (sqrt 10)" using fl_mono[OF lo] by simp
  moreover have "fl (sqrt 10) \<le> 4" using fl_mono[OF hi] by simp
  ultimately show ?thesis by (simp add: ceiling_eq_iff)
qed

lemma upto_0_4: "[0..4::int] = [0,1,2,3,4]" by (simp add: upto_rec1)

lemma fl_16_3: "5 < fl (16 / 3)" "fl (16 / 3) < 6" "21 / 4 \<le> fl (16 / 3)"
proof -
  have a: "fl (21 / 4) = 21 / 4" using fl_fix[of 21 "- 2"] by (simp add: pow2_def)
  have b: "fl (11 / 2) = 11 / 2" using fl_fix[of 11 "- 1"] by (simp add: pow2_def)
  have "21 / 4 \<le> (16 / 3 :: real)" "(16 / 3 :: real) \<le> 11 / 2" by simp_all
  from fl_between[OF a b this] show "5 < fl (16 / 3)" "fl (16 / 3) < 6" "21 / 4 \<le> fl (16 / 3)"
    by simp_all
qed

lemma floor_fl_16_3: "\<lfloor>fl (16 / 3)\<rfloor> = 5"
  using fl_16_3 by (simp add: floor_eq_iff)

lemma js_sqrt_pos: "js_gt x (Fin 0) \<Longrightarrow> js_gt (js_sqrt x) (Fin 0)"
proof (cases x)
  case (Fin r)
  assume "js_gt x (Fin 0)"
  with Fin have "0 < r" by (simp add: js_gt_def)
  then have "0 < fl (sqrt r)" by (intro fl_pos) simp
  then have "0 \<le> fl (sqrt r)" "fl (sqrt r) \<noteq> 0" by linarith+
  with Fin \<open>0 < r\<close> show ?thesis by (simp add: js_gt_def)
qed (auto simp: js_gt_def)

lemma js_ceil_pos: "js_gt x (Fin 0) \<Longrightarrow> js_gt (js_ceil x) (Fin 0)"
proof (cases x)
  case (Fin r)
  assume "js_gt x (Fin 0)"
  with Fin have "0 < r" by (simp add: js_gt_def)
  then have "0 < \<lceil>r\<rceil>" by (simp add: less_ceiling_iff)
  then have "0 \<le> \<lceil>r\<rceil>" and "\<lceil>r\<rceil> \<noteq> 0" by linarith+
  with Fin show ?thesis by (simp add: js_gt_def)
qed (auto simp: js_gt_def)

lemma js_square_pos: "js_gt x (Fin 0) \<Longrightarrow> js_gt (js_square x) (Fin 0)"
proof (cases x)
  case (Fin r)
  assume "js_gt x (Fin 0)"
  with Fin have "0 < r" by (simp add: js_gt_def)
  then have "0 < fl (r\<^sup>2)" by (intro fl_pos) simp
  then have "0 \<le> fl (r\<^sup>2)" "fl (r\<^sup>2) \<noteq> 0" by linarith+
  with Fin show ?thesis by (simp add: js_gt_def)
qed (auto simp: js_gt_def)

lemma corrected_width_pos:
  "js_gt w (Fin 0) \<Longrightarrow> js_gt (js_square (js_ceil (js_sqrt w))) (Fin 0)"
  by (intro js_square_pos js_ceil_pos js_sqrt_pos)

section \<open>The constructor\<close>

lemma PixiJSGrid_fields:
  "p_correctedWidth (PixiJSGrid host w cs lc dcw db) = Some (js_square (js_ceil (js_sqrt w)))"
  "p_cellSize (PixiJSGrid host w cs lc dcw db) =
     (if truthy cs then cs else Some (js_sqrt (js_square (js_ceil (js_sqrt w)))))"
  "p_gridWidth (PixiJSGrid host w cs lc dcw db) = w"
  "p_doCorrectWidth (PixiJSGrid host w cs lc dcw db) = dcw"
  "p_drawBoundaries (PixiJSGrid host w cs lc dcw db) = db"
  "host_line (PixiJSGrid host w cs lc dcw db) =
     (case lc of None \<Rightarrow> DEFAULT_LINE_STYLE | Some l \<Rightarrow> l)"
  "host_x (PixiJSGrid host w cs lc dcw db) = host_x host"
  "host_y (PixiJSGrid host w cs lc dcw db) = host_y host"
  "host_segments (PixiJSGrid host w cs lc dcw db) = host_segments host"
  by (simp_all add: PixiJSGrid_def p_correctWidth_def set_cellSize_def lineStyle_def Let_def
      split: option.splits)

lemma grid10_fields:
  "p_correctedWidth grid10 = Some (Fin 16)" "p_cellSize grid10 = Some (Fin 4)"
  "p_drawBoundaries grid10 = True" "host_line grid10 = DEFAULT_LINE_STYLE"
  "host_x grid10 = Fin 0" "host_y grid10 = Fin 0"
  by (simp_all add: grid10_def PixiJSGrid_fields ceiling_fl_sqrt_10 sqrt_16 host0_def
      fresh_host_def)

lemma grid16_3_fields:
  "p_correctedWidth grid16_3 = Some (Fin 16)" "p_cellSize grid16_3 = Some (Fin 3)"
  "p_drawBoundaries grid16_3 = True" "host_line grid16_3 = DEFAULT_LINE_STYLE"
  by (simp_all add: grid16_3_def PixiJSGrid_fields sqrt_16)

lemma grid_neg4_fields:
  "p_correctedWidth grid_neg4 = Some NaN" "p_cellSize grid_neg4 = Some NaN"
  "host_x grid_neg4 = Fin 0" "host_y grid_neg4 = Fin 0"
  by (simp_all add: grid_neg4_def PixiJSGrid_fields host0_def fresh_host_def)

lemma grid_far_fields:
  "p_correctedWidth grid_far = Some (Fin 16)" "p_cellSize grid_far = Some (Fin 4)"
  "host_x grid_far = Fin two_to_54" "host_y grid_far = Fin 0"
  by (simp_all add: grid_far_def PixiJSGrid_fields host_at_def fresh_host_def sqrt_16)

section \<open>The width correction\<close>

lemma gridWidth_PixiJSGrid:
  "gridWidth (PixiJSGrid host w cs lc dcw db) = Some (js_square (js_ceil (js_sqrt w)))"
  by (simp add: gridWidth_def PixiJSGrid_def p_correctWidth_def set_cellSize_def
      lineStyle_def Let_def)

text \<open>
  Claim C1. With \<open>doCorrectWidth = false\<close> the corrected width should be the requested
  width. The code computes the square all the same: a grid requested with width 10 and
  the correction switched off has the corrected width 16.
\<close>

theorem C1_uncorrected_width_10_is_16:
  "gridWidth (PixiJSGrid host0 (Fin 10) None None False True) = Some (Fin 16)
   \<and> gridWidth (PixiJSGrid host0 (Fin 10) None None False True) \<noteq> Some (Fin 10)"
  by (simp add: gridWidth_PixiJSGrid ceiling_fl_sqrt_10)

section \<open>The cell size\<close>

text \<open>
  Claim C7. Assigning a falsy value (\<open>null\<close> or absent, zero, \<open>NaN\<close>) to \<open>cellSize\<close>
  stores \<open>sqrt(correctedWidth)\<close>, assigning a truthy value stores that value; the
  constructor does the same with its \<open>cellSize\<close> argument.
\<close>

theorem C7_set_cellSize:
  "(\<not> truthy v \<longrightarrow>
      cellSize (set_cellSize v g) = Some (js_sqrt (to_number (p_correctedWidth g))))
   \<and> (truthy v \<longrightarrow> cellSize (set_cellSize v g) = v)
   \<and> cellSize (set_cellSize None g) = Some (js_sqrt (to_number (p_correctedWidth g)))
   \<and> cellSize (set_cellSize (Some (Fin 0)) g) = Some (js_sqrt (to_number (p_correctedWidth g)))
   \<and> (\<not> truthy v \<longrightarrow>
        cellSize (PixiJSGrid host w v lc dcw db) =
          Some (js_sqrt (to_number (p_correctedWidth (PixiJSGrid host w v lc dcw db)))))
   \<and> (truthy v \<longrightarrow> cellSize (PixiJSGrid host w v lc dcw db) = v)"
  by (simp add: cellSize_def set_cellSize_def PixiJSGrid_fields)

theorem C7_set_cellSize_witness:
  "cellSize (set_cellSize (Some (Fin 2)) grid10) = Some (Fin 2) \<and>
   cellSize (set_cellSize None (set_cellSize (Some (Fin 2)) grid10)) = Some (Fin 4) \<and>
   cellSize (PixiJSGrid host0 (Fin 10) (Some (Fin 2)) None True True) = Some (Fin 2) \<and>
   cellSize (PixiJSGrid host0 (Fin 10) None None True True) = Some (Fin 4)"
  using C7_set_cellSize[of "Some (Fin 2)" grid10 host0 "Fin 10" None True True]
    C7_set_cellSize[of None "set_cellSize (Some (Fin 2)) grid10" host0 "Fin 10" None True True]
  by (simp add: grid10_fields set_cellSize_def PixiJSGrid_fields sqrt_16 ceiling_fl_sqrt_10)

text \<open>
  Claim C10. An assignment to \<open>cellSize\<close> changes the stored cell size and nothing else:
  the corrected width, the requested width, the flags, the position, the bounds, the line
  style and the drawn segments stay as they were.
\<close>

theorem C10_set_cellSize_frame:
  "set_cellSize v g = g\<lparr>p_cellSize := cellSize (set_cellSize v g)\<rparr>
   \<and> gridWidth (set_cellSize v g) = gridWidth g
   \<and> p_correctedWidth (set_cellSize v g) = p_correctedWidth g
   \<and> p_gridWidth (set_cellSize v g) = p_gridWidth g
   \<and> p_doCorrectWidth (set_cellSize v g) = p_doCorrectWidth g
   \<and> p_drawBoundaries (set_cellSize v g) = p_drawBoundaries g
   \<and> host_x (set_cellSize v g) = host_x g
   \<and> host_y (set_cellSize v g) = host_y g
   \<and> bounds (set_cellSize v g) = bounds g
   \<and> host_line (set_cellSize v g) = host_line g
   \<and> host_segments (set_cellSize v g) = host_segments g"
  by (simp add: set_cellSize_def cellSize_def gridWidth_def bounds_def)

section \<open>Drawing\<close>

lemma drawGrid_body_eq:
  "drawGrid_body i g = g\<lparr>host_segments := host_segments g @ grid_lines g i,
       host_pen := (p_correctedWidth g, Some (js_mul (Fin (of_int i)) (to_number (p_cellSize g))))\<rparr>"
  by (simp add: drawGrid_body_def grid_lines_def moveTo_def lineTo_def Let_def)

lemma same_frame_body: "same_frame g (drawGrid_body i g)"
  by (simp add: drawGrid_body_eq same_frame_def)

lemma same_frame_fields:
  "same_frame g g' \<Longrightarrow> p_cellSize g' = p_cellSize g \<and> p_correctedWidth g' = p_correctedWidth g
    \<and> p_drawBoundaries g' = p_drawBoundaries g \<and> host_line g' = host_line g
    \<and> host_x g' = host_x g \<and> host_y g' = host_y g \<and> p_gridWidth g' = p_gridWidth g
    \<and> host_default_line g' = host_default_line g"
  unfolding same_frame_def
  by (cases g, cases g') simp

lemma drawGrid_loop_frame:
  assumes "drawGrid_loop i g = Some g'"
  shows "same_frame g g'"
proof (rule drawGrid_loop.raw_induct[where P = "\<lambda>i g g'. same_frame g g'", OF _ assms])
  fix loop i g g'
  assume IH: "\<And>j h h'. loop j h = Some h' \<Longrightarrow> same_frame h h'"
    and step: "(if js_le (Fin (of_int i))
           (js_sub (amtLines g) (Fin (if p_drawBoundaries g then 0 else 1)))
      then loop (i + 1) (drawGrid_body i g)
      else Some g) = Some g'"
  show "same_frame g g'"
  proof (cases "js_le (Fin (of_int i)) (js_sub (amtLines g) (Fin (if p_drawBoundaries g then 0 else 1)))")
    case True
    with step have "loop (i + 1) (drawGrid_body i g) = Some g'" by simp
    then have "same_frame (drawGrid_body i g) g'" by (rule IH)
    then show ?thesis using same_frame_body[of g i] by (simp add: same_frame_def)
  next
    case False
    with step show ?thesis by (simp add: same_frame_def)
  qed
qed

lemma amtLines_frame: "same_frame g g' \<Longrightarrow> amtLines g' = amtLines g"
  by (simp add: amtLines_def cellSize_def same_frame_fields)

lemma grid_lines_frame: "same_frame g g' \<Longrightarrow> grid_lines g' = grid_lines g"
  by (rule ext) (simp add: grid_lines_def same_frame_fields)

lemma same_frame_trans: "same_frame g h \<Longrightarrow> same_frame h k \<Longrightarrow> same_frame g k"
  by (simp add: same_frame_def)

lemma drawGrid_loop_fin:
  assumes "js_sub (amtLines g) (Fin (if p_drawBoundaries g then 0 else 1)) = Fin b"
  shows "\<exists>g'. drawGrid_loop i g = Some g' \<and> same_frame g g' \<and>
           host_segments g' = host_segments g @ concat (map (grid_lines g) [i..\<lfloor>b\<rfloor>])"
  using assms
proof (induction "nat (\<lfloor>b\<rfloor> + 1 - i)" arbitrary: i g)
  case 0
  from 0 have "\<lfloor>b\<rfloor> < i" by simp
  then have "\<not> real_of_int i \<le> b" by (simp add: floor_less_iff)
  with 0 have "drawGrid_loop i g = Some g"
    by (subst drawGrid_loop.simps) simp
  moreover from 0 have "[i..\<lfloor>b\<rfloor>] = []" by simp
  ultimately show ?case by (simp add: same_frame_def)
next
  case (Suc n)
  let ?h = "drawGrid_body i g"
  from Suc.hyps(2) have le: "i \<le> \<lfloor>b\<rfloor>" by simp
  then have "real_of_int i \<le> b" by (simp add: le_floor_iff)
  with Suc.prems have unfold: "drawGrid_loop i g = drawGrid_loop (i + 1) ?h"
    by (subst drawGrid_loop.simps) simp
  have fr: "same_frame g ?h" by (rule same_frame_body)
  have bound: "js_sub (amtLines ?h) (Fin (if p_drawBoundaries ?h then 0 else 1)) = Fin b"
    using Suc.prems fr by (simp add: amtLines_frame same_frame_fields)
  from Suc.hyps(2) have "n = nat (\<lfloor>b\<rfloor> + 1 - (i + 1))" by simp
  from Suc.hyps(1)[OF this bound] obtain g' where
    g': "drawGrid_loop (i + 1) ?h = Some g'" "same_frame ?h g'"
      "host_segments g' = host_segments ?h @ concat (map (grid_lines ?h) [i + 1..\<lfloor>b\<rfloor>])"
    by blast
  have "[i..\<lfloor>b\<rfloor>] = i # [i + 1..\<lfloor>b\<rfloor>]" using le by (simp add: upto_rec1)
  then have "host_segments g' = host_segments g @ concat (map (grid_lines g) [i..\<lfloor>b\<rfloor>])"
    using g'(3) fr by (simp add: grid_lines_frame drawGrid_body_eq)
  with unfold g'(1) g'(2) fr show ?case
    by (auto intro: same_frame_trans)
qed

lemma clearGrid_True:
  "clearGrid True g = (This, g\<lparr>host_segments := [], host_pen := (Some (Fin 0), Some (Fin 0))\<rparr>)"
  by (simp add: clearGrid_def clear_def lineStyle_def Let_def)

lemma same_frame_clearGrid_True: "same_frame g (snd (clearGrid True g))"
  by (simp add: clearGrid_True same_frame_def)

lemma same_frame_drawGrid:
  assumes "drawGrid g = Some (r, g')"
  shows "r = This \<and> same_frame g g'"
proof -
  let ?h = "snd (clearGrid True g)"
  from assms obtain k where k: "drawGrid_loop (if p_drawBoundaries ?h then 0 else 1) ?h = Some k"
    and r: "r = This" and g': "g' = k"
    by (auto simp: drawGrid_def Let_def endFill_def split: option.splits)
  from k have "same_frame ?h k" by (rule drawGrid_loop_frame)
  with same_frame_clearGrid_True[of g] r g' show ?thesis
    by (auto intro: same_frame_trans)
qed




lemma drawGrid_fin:
  assumes b: "js_sub (amtLines g) (Fin (if p_drawBoundaries g then 0 else 1)) = Fin b"
  shows "\<exists>g'. drawGrid g = Some (This, g') \<and> same_frame g g' \<and>
           host_segments g' =
             concat (map (grid_lines g) [(if p_drawBoundaries g then 0 else 1)..\<lfloor>b\<rfloor>])"
proof -
  let ?h = "snd (clearGrid True g)"
  have fr: "same_frame g ?h" by (rule same_frame_clearGrid_True)
  have h0: "host_segments ?h = []" by (simp add: clearGrid_True)
  have db: "p_drawBoundaries ?h = p_drawBoundaries g" using fr by (simp add: same_frame_fields)
  have "js_sub (amtLines ?h) (Fin (if p_drawBoundaries ?h then 0 else 1)) = Fin b"
    using fr b by (simp add: amtLines_frame db)
  from drawGrid_loop_fin[OF this, of "if p_drawBoundaries ?h then 0 else 1"]
  obtain k where k: "drawGrid_loop (if p_drawBoundaries ?h then 0 else 1) ?h = Some k"
    "same_frame ?h k"
    "host_segments k = host_segments ?h @
       concat (map (grid_lines ?h) [(if p_drawBoundaries ?h then 0 else 1)..\<lfloor>b\<rfloor>])"
    by blast
  have "drawGrid g = Some (This, k)" using k(1) by (simp add: drawGrid_def endFill_def)
  moreover have "same_frame g k" using fr k(2) by (rule same_frame_trans)
  moreover have "host_segments k =
      concat (map (grid_lines g) [(if p_drawBoundaries g then 0 else 1)..\<lfloor>b\<rfloor>])"
    using k(3) h0 db grid_lines_frame[OF fr] by simp
  ultimately show ?thesis by blast
qed


lemma grid_lines_int:
  assumes "p_correctedWidth g = Some (Fin W)" and "p_cellSize g = Some (Fin c)"
    and "fl (real_of_int i * c) = real_of_int i * c"
  shows "grid_lines g i = [column_line (host_line g) c W i, row_line (host_line g) c W i]"
  using assms by (simp add: grid_lines_def column_line_def row_line_def Let_def)

lemma grid10_bound:
  "js_sub (amtLines grid10) (Fin (if p_drawBoundaries grid10 then 0 else 1)) = Fin 4"
  by (simp add: amtLines_def cellSize_def js_sub_def grid10_fields)

lemma grid10_lines:
  "map (grid_lines grid10) [0, 1, 2, 3, 4] =
     map (\<lambda>i. [column_line DEFAULT_LINE_STYLE 4 16 i, row_line DEFAULT_LINE_STYLE 4 16 i])
       [0, 1, 2, 3, 4]"
  by (simp add: grid_lines_int[of grid10 16 4] grid10_fields)

lemma drawGrid_grid10:
  "\<exists>g'. drawGrid grid10 = Some (This, g') \<and> same_frame grid10 g' \<and>
     host_segments g' =
       concat (map (\<lambda>i. [column_line DEFAULT_LINE_STYLE 4 16 i, row_line DEFAULT_LINE_STYLE 4 16 i])
         [0, 1, 2, 3, 4])"
  using drawGrid_fin[OF grid10_bound] grid10_lines
  by (simp add: grid10_fields upto_0_4)



text \<open>
  Claim C8 says that \<open>drawGrid\<close> and \<open>clearGrid\<close> both return the grid, whatever
  \<open>retainLineStyle\<close> is. \<open>clearGrid(false)\<close> leaves through a bare \<open>return\<close> and gives
  \<open>undefined\<close>; \<open>clearGrid(true)\<close> and \<open>drawGrid\<close> return the grid.
\<close>

theorem C8_clearGrid_false_returns_undefined:
  "fst (clearGrid False grid10) = Undefined \<and> fst (clearGrid True grid10) = This \<and>
   map_option fst (drawGrid grid10) = Some This"
proof -
  obtain g' where "drawGrid grid10 = Some (This, g')"
    using drawGrid_grid10 by blast
  then show ?thesis by (simp add: clearGrid_def Let_def)
qed

lemma cellSize_clearGrid: "cellSize (snd (clearGrid b g)) = cellSize g"
  by (simp add: clearGrid_def clear_def lineStyle_def cellSize_def Let_def)

lemma cellSize_drawGrid: "drawGrid g = Some (rt, g') \<Longrightarrow> cellSize g' = cellSize g"
  using same_frame_drawGrid[of g rt g'] by (simp add: cellSize_def same_frame_fields)

text \<open>
  Claim C9 says that \<open>cellSize > 0\<close> holds at all times after construction, whatever is
  assigned. The setter stores every truthy value as it is: after \<open>grid.cellSize = -5\<close> on
  a grid of width 10 the cell size is \<open>-5\<close>.
\<close>

theorem C9_negative_cellSize_counterexample:
  "js_gt (to_number (cellSize grid10)) (Fin 0) \<and>
   cellSize (set_cellSize (Some (Fin (- 5))) grid10) = Some (Fin (- 5)) \<and>
   \<not> js_gt (to_number (cellSize (set_cellSize (Some (Fin (- 5))) grid10))) (Fin 0)"
  by (simp add: cellSize_def set_cellSize_def grid10_fields js_gt_def)

text \<open>
  Claim C9, amended. The cell size is positive after an assignment of a falsy value or of
  a positive number to a grid whose corrected width is positive, and after the
  construction with a positive width and such a cell size argument; \<open>drawGrid\<close> and
  \<open>clearGrid\<close> leave the cell size as it is.
\<close>

theorem C9_cellSize_positive:
  "(js_gt (to_number (p_correctedWidth g)) (Fin 0) \<and>
      (\<not> truthy v \<or> js_gt (to_number v) (Fin 0)) \<longrightarrow>
      js_gt (to_number (cellSize (set_cellSize v g))) (Fin 0))
   \<and> (js_gt w (Fin 0) \<and> (\<not> truthy v \<or> js_gt (to_number v) (Fin 0)) \<longrightarrow>
      js_gt (to_number (cellSize (PixiJSGrid host w v lc dcw db))) (Fin 0))
   \<and> (drawGrid g = Some (rt, g') \<longrightarrow> cellSize g' = cellSize g)
   \<and> cellSize (snd (clearGrid b g)) = cellSize g"
proof (intro conjI impI)
  assume "js_gt (to_number (p_correctedWidth g)) (Fin 0) \<and>
      (\<not> truthy v \<or> js_gt (to_number v) (Fin 0))"
  then show "js_gt (to_number (cellSize (set_cellSize v g))) (Fin 0)"
    by (auto simp: cellSize_def set_cellSize_def js_sqrt_pos)
next
  assume "js_gt w (Fin 0) \<and> (\<not> truthy v \<or> js_gt (to_number v) (Fin 0))"
  then show "js_gt (to_number (cellSize (PixiJSGrid host w v lc dcw db))) (Fin 0)"
    by (auto simp: cellSize_def PixiJSGrid_fields js_sqrt_pos corrected_width_pos)
next
  assume "drawGrid g = Some (rt, g')"
  then show "cellSize g' = cellSize g" by (rule cellSize_drawGrid)
next
  show "cellSize (snd (clearGrid b g)) = cellSize g" by (rule cellSize_clearGrid)
qed

theorem C9_cellSize_positive_witness:
  "js_gt (to_number (cellSize (set_cellSize None grid10))) (Fin 0) \<and>
   js_gt (to_number (cellSize (set_cellSize (Some (Fin 2)) grid10))) (Fin 0) \<and>
   js_gt (to_number (cellSize (PixiJSGrid host0 (Fin 10) None None True True))) (Fin 0) \<and>
   js_gt (to_number (cellSize (PixiJSGrid host0 (Fin 10) (Some (Fin 2)) None True True))) (Fin 0) \<and>
   map_option (cellSize \<circ> snd) (drawGrid grid10) = Some (Some (Fin 4))"
proof -
  obtain g' where g': "drawGrid grid10 = Some (This, g')"
    using drawGrid_grid10 by blast
  have pos: "js_gt (to_number (p_correctedWidth grid10)) (Fin 0)" "js_gt (Fin 10) (Fin 0)"
    "\<not> truthy None" "js_gt (to_number (Some (Fin 2))) (Fin 0)"
    by (simp_all add: grid10_fields js_gt_def)
  note a = C9_cellSize_positive[of grid10 None "Fin 10" host0 None True True This g' True]
  note b = C9_cellSize_positive[of grid10 "Some (Fin 2)" "Fin 10" host0 None True True This g' True]
  from a pos g' have "js_gt (to_number (cellSize (set_cellSize None grid10))) (Fin 0)"
    "js_gt (to_number (cellSize (PixiJSGrid host0 (Fin 10) None None True True))) (Fin 0)"
    "cellSize g' = cellSize grid10"
    by blast+
  moreover from b pos have "js_gt (to_number (cellSize (set_cellSize (Some (Fin 2)) grid10))) (Fin 0)"
    "js_gt (to_number (cellSize (PixiJSGrid host0 (Fin 10) (Some (Fin 2)) None True True))) (Fin 0)"
    by blast+
  ultimately show ?thesis using g' by (simp add: cellSize_def grid10_fields)
qed

section \<open>The corrected width of an integer width\<close>



















section \<open>Cell coordinates\<close>


lemma fl_nine_quarters: "fl (9 / 4) = 9 / 4"
  using fl_fix[of 9 "- 2"] by (simp add: pow2_def)














section \<open>The pointer\<close>

lemma fl_pred:
  assumes "\<bar>X\<bar> \<le> 2 ^ 52"
  shows "fl (X - 1) < X"
proof (cases "X - 1 = 0")
  case True
  then show ?thesis by simp
next
  case False
  have "\<bar>X - 1\<bar> < pow2 53" using assms by (simp add: pow2_53)
  with False have "expo (X - 1) < 53" by (rule expo_less)
  then have "pow2 (expo (X - 1) - 53) \<le> pow2 (- 1)" by simp
  then have "pow2 (expo (X - 1) - 53) \<le> 1 / 2" by (simp add: pow2_def)
  with fl_abs_err[OF False] have "\<bar>fl (X - 1) - (X - 1)\<bar> \<le> 1 / 2" by linarith
  then show ?thesis by linarith
qed

lemma is_double_two_to_54: "fl two_to_54 = two_to_54"
  using fl_fix[of 1 54] by (simp add: two_to_54_def pow2_def)

text \<open>\<open>2^54 - 1\<close> lies half way between the doubles \<open>2^54 - 2\<close> and \<open>2^54\<close>: it rounds to \<open>2^54\<close>.\<close>

lemma fl_two_to_54_minus_one: "fl (two_to_54 - 1) = two_to_54"
proof -
  define x where "x = two_to_54 - 1"
  have b: "pow2 53 \<le> x" "x < pow2 (53 + 1)"
    by (simp_all add: x_def two_to_54_def pow2_def)
  have "x / pow2 (53 - 52) = real_of_int (2 ^ 53 - 1) + 1 / 2"
    by (simp add: x_def two_to_54_def pow2_def field_simps)
  then have "rne (x / pow2 (53 - 52)) = (2 ^ 53 - 1) + 1" by (rule rne_tie_odd) simp
  with fl_pos_eq[OF b] have "fl x = two_to_54" by (simp add: pow2_def two_to_54_def)
  then show ?thesis by (simp add: x_def)
qed

lemma two_to_54_le_sum: "two_to_54 \<le> fl (two_to_54 + 16)"
proof -
  have "fl two_to_54 \<le> fl (two_to_54 + 16)" by (rule fl_mono) simp
  then show ?thesis by (simp add: is_double_two_to_54)
qed

lemma mousemove_listener_None:
  "(mousemove_listener evt g = None) =
     (\<not> (js_le (x1 (bounds g)) (global_x evt) \<and> js_le (global_x evt) (x2 (bounds g)) \<and>
      js_le (y1 (bounds g)) (global_y evt) \<and> js_le (global_y evt) (y2 (bounds g))))"
  by (simp add: mousemove_listener_def js_ge_def Let_def)

lemma mousemove_listener_Some:
  "mousemove_listener evt g \<noteq> None \<Longrightarrow>
     mousemove_listener evt g = Some (evt, getCellCoordinates (global_x evt) (global_y evt) g)"
  by (simp add: mousemove_listener_def Let_def split: if_splits)

text \<open>
  Claim C4 says that a pointer at \<open>(bounds.x1, bounds.y1)\<close> invokes the hook and a pointer
  at \<open>(bounds.x1 - 1, bounds.y1)\<close> does not, on every grid. The corrected width of
  \<open>new PixiJSGrid(-4)\<close> is \<open>NaN\<close>, so are \<open>bounds.x2\<close> and \<open>bounds.y2\<close>, and no pointer position
  invokes the hook: not the corner either. On a grid at \<open>x = 2^54\<close> the difference
  \<open>bounds.x1 - 1\<close> is the double \<open>bounds.x1\<close> itself, and a pointer there invokes the hook.
\<close>

theorem C4_negative_width_counterexample:
  "mousemove_listener
     \<lparr>global_x = x1 (bounds grid_neg4), global_y = y1 (bounds grid_neg4)\<rparr> grid_neg4 = None \<and>
   is_double two_to_54 \<and>
   mousemove_listener
     \<lparr>global_x = js_sub (x1 (bounds grid_far)) (Fin 1), global_y = y1 (bounds grid_far)\<rparr>
     grid_far \<noteq> None"
proof -
  have a: "mousemove_listener
     \<lparr>global_x = x1 (bounds grid_neg4), global_y = y1 (bounds grid_neg4)\<rparr> grid_neg4 = None"
    unfolding mousemove_listener_None by (simp add: bounds_def grid_neg4_fields)
  have "\<not> (mousemove_listener
     \<lparr>global_x = js_sub (x1 (bounds grid_far)) (Fin 1), global_y = y1 (bounds grid_far)\<rparr>
     grid_far = None)"
    unfolding mousemove_listener_None
    using two_to_54_le_sum
    by (simp add: bounds_def grid_far_fields js_sub_def fl_two_to_54_minus_one)
  with a show ?thesis by (simp add: is_double_def is_double_two_to_54)
qed

text \<open>
  Claim C4, amended. The listener invokes the hook, with the event and the cell
  coordinates of the pointer, exactly when \<open>bounds.x1 <= px <= bounds.x2\<close> and
  \<open>bounds.y1 <= py <= bounds.y2\<close>; on a grid with finite position \<open>(X, Y)\<close> and finite
  corrected width \<open>W\<close> these are \<open>X \<le> px \<le> fl (X + W)\<close> and \<open>Y \<le> py \<le> fl (Y + W)\<close>. A
  pointer left of \<open>bounds.x1\<close> never invokes the hook, and \<open>bounds.x1 - 1\<close> is left of
  \<open>bounds.x1\<close> when \<open>|bounds.x1| \<le> 2^52\<close>. When the corrected width is a number \<open>W \<ge> 0\<close> and
  the cell size is finite and not zero, a pointer at \<open>(bounds.x1, bounds.y1)\<close> invokes the
  hook, with the cell coordinates \<open>{x: 0, y: 0}\<close>.
\<close>

theorem C4_mousemove_inside_bounds:
  "(mousemove_listener evt g \<noteq> None) =
     (js_le (x1 (bounds g)) (global_x evt) \<and> js_le (global_x evt) (x2 (bounds g)) \<and>
      js_le (y1 (bounds g)) (global_y evt) \<and> js_le (global_y evt) (y2 (bounds g)))
   \<and> (mousemove_listener evt g \<noteq> None \<longrightarrow>
        mousemove_listener evt g = Some (evt, getCellCoordinates (global_x evt) (global_y evt) g))
   \<and> (host_x g = Fin X \<and> host_y g = Fin Y \<and> p_correctedWidth g = Some (Fin W) \<longrightarrow>
        (mousemove_listener \<lparr>global_x = Fin a, global_y = Fin b\<rparr> g \<noteq> None) =
          (X \<le> a \<and> a \<le> fl (X + W) \<and> Y \<le> b \<and> b \<le> fl (Y + W)))
   \<and> (host_x g = Fin X \<and> a < X \<longrightarrow>
        mousemove_listener \<lparr>global_x = Fin a, global_y = py\<rparr> g = None)
   \<and> (host_x g = Fin X \<and> \<bar>X\<bar> \<le> 2 ^ 52 \<longrightarrow>
        mousemove_listener \<lparr>global_x = js_sub (x1 (bounds g)) (Fin 1), global_y = py\<rparr> g = None)
   \<and> (host_x g = Fin X \<and> host_y g = Fin Y \<and> is_double X \<and> is_double Y \<and>
       p_correctedWidth g = Some (Fin W) \<and> 0 \<le> W \<and> cellSize g = Some (Fin c) \<and> c \<noteq> 0 \<longrightarrow>
        mousemove_listener \<lparr>global_x = x1 (bounds g), global_y = y1 (bounds g)\<rparr> g =
          Some (\<lparr>global_x = x1 (bounds g), global_y = y1 (bounds g)\<rparr>,
                \<lparr>cell_x = Fin 0, cell_y = Fin 0\<rparr>))"
proof (intro conjI impI)
  show "(mousemove_listener evt g \<noteq> None) =
     (js_le (x1 (bounds g)) (global_x evt) \<and> js_le (global_x evt) (x2 (bounds g)) \<and>
      js_le (y1 (bounds g)) (global_y evt) \<and> js_le (global_y evt) (y2 (bounds g)))"
    unfolding mousemove_listener_None by blast
next
  assume "mousemove_listener evt g \<noteq> None"
  then show "mousemove_listener evt g =
      Some (evt, getCellCoordinates (global_x evt) (global_y evt) g)"
    by (rule mousemove_listener_Some)
next
  assume "host_x g = Fin X \<and> host_y g = Fin Y \<and> p_correctedWidth g = Some (Fin W)"
  then show "(mousemove_listener \<lparr>global_x = Fin a, global_y = Fin b\<rparr> g \<noteq> None) =
          (X \<le> a \<and> a \<le> fl (X + W) \<and> Y \<le> b \<and> b \<le> fl (Y + W))"
    unfolding mousemove_listener_None by (auto simp: bounds_def)
next
  assume "host_x g = Fin X \<and> a < X"
  then show "mousemove_listener \<lparr>global_x = Fin a, global_y = py\<rparr> g = None"
    unfolding mousemove_listener_None by (simp add: bounds_def)
next
  assume h: "host_x g = Fin X \<and> \<bar>X\<bar> \<le> 2 ^ 52"
  then have "fl (X - 1) < X" by (intro fl_pred) simp
  with h show "mousemove_listener
      \<lparr>global_x = js_sub (x1 (bounds g)) (Fin 1), global_y = py\<rparr> g = None"
    unfolding mousemove_listener_None by (simp add: bounds_def js_sub_def)
next
  assume h: "host_x g = Fin X \<and> host_y g = Fin Y \<and> is_double X \<and> is_double Y \<and>
       p_correctedWidth g = Some (Fin W) \<and> 0 \<le> W \<and> cellSize g = Some (Fin c) \<and> c \<noteq> 0"
  then have "X \<le> X + W" "Y \<le> Y + W" by simp_all
  then have "fl X \<le> fl (X + W)" "fl Y \<le> fl (Y + W)" by (simp_all add: fl_mono)
  with h have le: "X \<le> fl (X + W)" "Y \<le> fl (Y + W)" by (simp_all add: is_double_def)
  have cell: "getCellCoordinates (Fin X) (Fin Y) g = \<lparr>cell_x = Fin 0, cell_y = Fin 0\<rparr>"
    using h by (simp add: getCellCoordinates_def bounds_def js_sub_def)
  from h le cell show "mousemove_listener \<lparr>global_x = x1 (bounds g), global_y = y1 (bounds g)\<rparr> g =
          Some (\<lparr>global_x = x1 (bounds g), global_y = y1 (bounds g)\<rparr>,
                \<lparr>cell_x = Fin 0, cell_y = Fin 0\<rparr>)"
    by (simp add: mousemove_listener_def bounds_def js_ge_def Let_def)
qed

theorem C4_mousemove_inside_bounds_witness:
  "mousemove_listener \<lparr>global_x = Fin 9, global_y = Fin 4\<rparr> grid10 =
     Some (\<lparr>global_x = Fin 9, global_y = Fin 4\<rparr>, \<lparr>cell_x = Fin 2, cell_y = Fin 1\<rparr>) \<and>
   mousemove_listener \<lparr>global_x = Fin (- 1), global_y = Fin 0\<rparr> grid10 = None \<and>
   mousemove_listener \<lparr>global_x = Fin 0, global_y = Fin 0\<rparr> grid10 =
     Some (\<lparr>global_x = Fin 0, global_y = Fin 0\<rparr>, \<lparr>cell_x = Fin 0, cell_y = Fin 0\<rparr>) \<and>
   mousemove_listener \<lparr>global_x = Fin 16, global_y = Fin 16\<rparr> grid10 \<noteq> None \<and>
   \<not> mousemove_listener \<lparr>global_x = Fin 17, global_y = Fin 16\<rparr> grid10 \<noteq> None"
proof -
  have b: "x1 (bounds grid10) = Fin 0" "y1 (bounds grid10) = Fin 0"
    by (simp_all add: bounds_def grid10_fields)
  have hyp: "host_x grid10 = Fin 0" "host_y grid10 = Fin 0" "is_double 0"
    "p_correctedWidth grid10 = Some (Fin 16)" "(0::real) \<le> 16"
    "cellSize grid10 = Some (Fin 4)" "(4::real) \<noteq> 0" "\<bar>0::real\<bar> \<le> 2 ^ 52"
    by (simp_all add: grid10_fields cellSize_def is_double_def)
  note t = C4_mousemove_inside_bounds[of _ grid10 0 0 16 _ _ "Fin 0" 4]
  note t94 = t[of "\<lparr>global_x = Fin 9, global_y = Fin 4\<rparr>" 9 4]
  note t16 = t[of "\<lparr>global_x = Fin 9, global_y = Fin 4\<rparr>" 16 16]
  note t17 = t[of "\<lparr>global_x = Fin 9, global_y = Fin 4\<rparr>" 17 16]
  from t94 hyp have in94: "(mousemove_listener \<lparr>global_x = Fin 9, global_y = Fin 4\<rparr> grid10 \<noteq> None) =
      ((0::real) \<le> 9 \<and> 9 \<le> fl (0 + 16) \<and> (0::real) \<le> 4 \<and> 4 \<le> fl (0 + 16))"
    by blast
  have "mousemove_listener \<lparr>global_x = Fin 9, global_y = Fin 4\<rparr> grid10 \<noteq> None"
    unfolding in94 by simp
  with t94 have "mousemove_listener \<lparr>global_x = Fin 9, global_y = Fin 4\<rparr> grid10 =
      Some (\<lparr>global_x = Fin 9, global_y = Fin 4\<rparr>,
        getCellCoordinates (global_x \<lparr>global_x = Fin 9, global_y = Fin 4\<rparr>)
          (global_y \<lparr>global_x = Fin 9, global_y = Fin 4\<rparr>) grid10)"
    by blast
  moreover have "\<lfloor>9 / 4 :: real\<rfloor> = 2" by (simp add: floor_eq_iff)
  ultimately have p94: "mousemove_listener \<lparr>global_x = Fin 9, global_y = Fin 4\<rparr> grid10 =
     Some (\<lparr>global_x = Fin 9, global_y = Fin 4\<rparr>, \<lparr>cell_x = Fin 2, cell_y = Fin 1\<rparr>)"
    by (simp add: getCellCoordinates_def bounds_def cellSize_def grid10_fields js_sub_def
        fl_nine_quarters)
  from t94 hyp have left:
    "mousemove_listener \<lparr>global_x = js_sub (x1 (bounds grid10)) (Fin 1), global_y = Fin 0\<rparr> grid10 = None"
    by blast
  from t94 hyp have corner:
    "mousemove_listener \<lparr>global_x = x1 (bounds grid10), global_y = y1 (bounds grid10)\<rparr> grid10 =
          Some (\<lparr>global_x = x1 (bounds grid10), global_y = y1 (bounds grid10)\<rparr>,
                \<lparr>cell_x = Fin 0, cell_y = Fin 0\<rparr>)"
    by blast
  from t16 hyp have in16: "(mousemove_listener \<lparr>global_x = Fin 16, global_y = Fin 16\<rparr> grid10 \<noteq> None) =
      ((0::real) \<le> 16 \<and> 16 \<le> fl (0 + 16) \<and> (0::real) \<le> 16 \<and> 16 \<le> fl (0 + 16))"
    by blast
  from t17 hyp have in17: "(mousemove_listener \<lparr>global_x = Fin 17, global_y = Fin 16\<rparr> grid10 \<noteq> None) =
      ((0::real) \<le> 17 \<and> 17 \<le> fl (0 + 16) \<and> (0::real) \<le> 16 \<and> 16 \<le> fl (0 + 16))"
    by blast
  have p16: "mousemove_listener \<lparr>global_x = Fin 16, global_y = Fin 16\<rparr> grid10 \<noteq> None"
    unfolding in16 by simp
  have p17: "\<not> mousemove_listener \<lparr>global_x = Fin 17, global_y = Fin 16\<rparr> grid10 \<noteq> None"
    unfolding in17 by simp
  from left have pl: "mousemove_listener \<lparr>global_x = Fin (- 1), global_y = Fin 0\<rparr> grid10 = None"
    by (simp add: b js_sub_def fl_minus)
  have "(- 1 :: real) < 0" by simp
  with t[of "\<lparr>global_x = Fin 9, global_y = Fin 4\<rparr>" "- 1" 0] hyp
  have "mousemove_listener \<lparr>global_x = Fin (- 1), global_y = Fin 0\<rparr> grid10 = None"
    by blast
  from corner have pc: "mousemove_listener \<lparr>global_x = Fin 0, global_y = Fin 0\<rparr> grid10 =
     Some (\<lparr>global_x = Fin 0, global_y = Fin 0\<rparr>, \<lparr>cell_x = Fin 0, cell_y = Fin 0\<rparr>)"
    by (simp add: b)
  from p94 pl pc p16 p17 show ?thesis by blast
qed

section \<open>The lines of the grid\<close>

lemma filter_concat_single:
  assumes "\<And>i. filter P (f i) = [h i]"
  shows "filter P (concat (map f xs)) = map h xs"
  by (induction xs) (simp_all add: assms)

lemma columns_of_grid_lines:
  assumes "p_correctedWidth g \<noteq> Some (Fin 0)"
  shows "length (filter is_column (concat (map (grid_lines g) xs))) = length xs"
proof -
  have "filter is_column (grid_lines g i) = [hd (grid_lines g i)]" for i
    using assms by (auto simp: grid_lines_def is_column_def Let_def)
  then have "filter is_column (concat (map (grid_lines g) xs)) = map (\<lambda>i. hd (grid_lines g i)) xs"
    by (rule filter_concat_single)
  then show ?thesis by simp
qed

lemma bounds_same_frame: "same_frame g g' \<Longrightarrow> bounds g' = bounds g"
  by (simp add: bounds_def same_frame_fields)

lemma getCellCoordinates_same_frame:
  "same_frame g g' \<Longrightarrow> getCellCoordinates x y g' = getCellCoordinates x y g"
  by (simp add: getCellCoordinates_def bounds_same_frame cellSize_def same_frame_fields)

lemma js_div_double: "js_div a b = Fin L \<Longrightarrow> fl L = L"
  by (cases a; cases b) (auto simp: signed_inf_def split: if_splits)

lemma amtLines_double: "amtLines g = Fin L \<Longrightarrow> fl L = L"
  unfolding amtLines_def by (rule js_div_double)

lemma grid16_3_amtLines: "amtLines grid16_3 = Fin (fl (16 / 3))"
  by (simp add: amtLines_def cellSize_def grid16_3_fields)

lemma grid16_3_bound:
  "js_sub (amtLines grid16_3) (Fin (if p_drawBoundaries grid16_3 then 0 else 1)) =
     Fin (fl (16 / 3))"
  by (simp add: grid16_3_amtLines js_sub_def grid16_3_fields)

lemma upto_0_5: "[0..5::int] = [0, 1, 2, 3, 4, 5]"
  by (simp add: upto_rec1)

lemma grid16_3_lines:
  "map (grid_lines grid16_3) [0, 1, 2, 3, 4, 5] =
     map (\<lambda>i. [column_line DEFAULT_LINE_STYLE 3 16 i, row_line DEFAULT_LINE_STYLE 3 16 i])
       [0, 1, 2, 3, 4, 5]"
  by (simp add: grid_lines_int[of grid16_3 16 3] grid16_3_fields)

lemma columns_drawn_grid16_3: "columns_drawn grid16_3 = Some 6"
proof -
  from drawGrid_fin[OF grid16_3_bound] obtain g' where
    g': "drawGrid grid16_3 = Some (This, g')"
      "host_segments g' = concat (map (grid_lines grid16_3) [0..5])"
    by (auto simp: grid16_3_fields floor_fl_16_3)
  have "p_correctedWidth grid16_3 \<noteq> Some (Fin 0)" by (simp add: grid16_3_fields)
  from columns_of_grid_lines[OF this, of "[0..5]"] g' show ?thesis
    by (simp add: columns_drawn_def upto_0_5)
qed

text \<open>
  Claim C5 says that \<open>drawGrid\<close> draws \<open>lineCount + 1\<close> columns and as many rows. The
  loop runs over the integers up to \<open>lineCount\<close>, so a grid of side 16 with cell size 3
  (\<open>lineCount = 16 / 3\<close>, between 5 and 6) gets 6 columns, not \<open>lineCount + 1\<close>.
\<close>

theorem C5_fractional_lineCount_counterexample:
  "columns_drawn grid16_3 = Some 6 \<and>
   js_lt (Fin 5) (amtLines grid16_3) \<and> js_lt (amtLines grid16_3) (Fin 6) \<and>
   Fin 6 \<noteq> js_add (amtLines grid16_3) (Fin 1)"
proof -
  have "25 / 4 \<le> fl (16 / 3) + 1" using fl_16_3(3) by simp
  then have "fl (25 / 4) \<le> fl (fl (16 / 3) + 1)" by (rule fl_mono)
  moreover have "fl (25 / 4) = 25 / 4" using fl_fix[of 25 "- 2"] by (simp add: pow2_def)
  ultimately have "6 < fl (fl (16 / 3) + 1)" by simp
  then have "fl (fl (16 / 3) + 1) \<noteq> 6" by simp
  with fl_16_3 columns_drawn_grid16_3 show ?thesis
    by (simp add: grid16_3_amtLines js_lt_def)
qed

text \<open>
  Claim C5, amended. For a grid whose line count \<open>L\<close> is a number below \<open>2^53\<close>,
  \<open>drawGrid\<close> returns, and the segments on the surface are then exactly the column and the
  row of every index \<open>i\<close> from 0 to \<open>\<lfloor>L\<rfloor>\<close>, the column from \<open>(i * cellSize, 0)\<close> to
  \<open>(i * cellSize, correctedWidth)\<close> and the row from \<open>(0, i * cellSize)\<close> to
  \<open>(correctedWidth, i * cellSize)\<close>: that is \<open>\<lfloor>L\<rfloor> + 1\<close> columns, and \<open>L + 1\<close> when \<open>L\<close> is an
  integer. With \<open>drawBoundaries = false\<close> the indices run from 1 to \<open>\<lfloor>fl (L - 1)\<rfloor>\<close>, the
  floor of the rounded difference. The products \<open>i * cellSize\<close> are rounded too. Neither
  the call nor the flag changes \<open>bounds\<close> or \<open>getCellCoordinates\<close>.
\<close>

theorem C5_drawGrid_lines:
  assumes "amtLines g = Fin L" and "L < 2 ^ 53"
  shows "\<exists>g'. drawGrid g = Some (This, g') \<and>
           host_segments g' =
             concat (map (grid_lines g)
               (if p_drawBoundaries g then [0..\<lfloor>L\<rfloor>] else [1..\<lfloor>fl (L - 1)\<rfloor>])) \<and>
           (p_correctedWidth g \<noteq> Some (Fin 0) \<longrightarrow> columns_drawn g =
               Some (if p_drawBoundaries g then nat (\<lfloor>L\<rfloor> + 1) else nat \<lfloor>fl (L - 1)\<rfloor>)) \<and>
           bounds g' = bounds g \<and>
           getCellCoordinates x y g' = getCellCoordinates x y g \<and>
           bounds (g\<lparr>p_drawBoundaries := d\<rparr>) = bounds g \<and>
           getCellCoordinates x y (g\<lparr>p_drawBoundaries := d\<rparr>) = getCellCoordinates x y g"
proof -
  define b where "b = (if p_drawBoundaries g then L else fl (L - 1))"
  have "fl L = L" using assms(1) by (rule amtLines_double)
  then have "js_sub (amtLines g) (Fin (if p_drawBoundaries g then 0 else 1)) = Fin b"
    using assms(1) by (simp add: js_sub_def b_def)
  from drawGrid_fin[OF this] obtain g' where
    g': "drawGrid g = Some (This, g')" "same_frame g g'"
      "host_segments g' =
         concat (map (grid_lines g) [(if p_drawBoundaries g then 0 else 1)..\<lfloor>b\<rfloor>])"
    by blast
  have idx: "[(if p_drawBoundaries g then 0 else 1)..\<lfloor>b\<rfloor>] =
      (if p_drawBoundaries g then [0..\<lfloor>L\<rfloor>] else [1..\<lfloor>fl (L - 1)\<rfloor>])"
    by (simp add: b_def)
  have segs: "host_segments g' =
             concat (map (grid_lines g)
               (if p_drawBoundaries g then [0..\<lfloor>L\<rfloor>] else [1..\<lfloor>fl (L - 1)\<rfloor>]))"
    using g'(3) idx by simp
  have cols: "p_correctedWidth g \<noteq> Some (Fin 0) \<longrightarrow> columns_drawn g =
               Some (if p_drawBoundaries g then nat (\<lfloor>L\<rfloor> + 1) else nat \<lfloor>fl (L - 1)\<rfloor>)"
    using g'(1) segs by (auto simp: columns_drawn_def columns_of_grid_lines)
  have flag: "bounds (g\<lparr>p_drawBoundaries := d\<rparr>) = bounds g"
    "getCellCoordinates x y (g\<lparr>p_drawBoundaries := d\<rparr>) = getCellCoordinates x y g"
    by (simp_all add: bounds_def getCellCoordinates_def cellSize_def)
  from g'(1,2) segs cols flag show ?thesis
    by (simp add: bounds_same_frame getCellCoordinates_same_frame)
qed

theorem C5_drawGrid_lines_witness:
  "columns_drawn grid16_3 = Some 6 \<and>
   map_option (host_segments \<circ> snd) (drawGrid grid16_3) =
     Some (concat (map (\<lambda>i. [column_line DEFAULT_LINE_STYLE 3 16 i, row_line DEFAULT_LINE_STYLE 3 16 i])
        [0, 1, 2, 3, 4, 5]))"
proof -
  have small: "fl (16 / 3) < 2 ^ 53" using fl_16_3(2) by simp
  from C5_drawGrid_lines[OF grid16_3_amtLines small, of "Fin 0" "Fin 0" True] obtain g' where
    "drawGrid grid16_3 = Some (This, g')"
    "host_segments g' = concat (map (grid_lines grid16_3) [0, 1, 2, 3, 4, 5])"
    "columns_drawn grid16_3 = Some 6"
    by (auto simp: grid16_3_fields floor_fl_16_3 upto_0_5)
  then show ?thesis using grid16_3_lines by simp
qed

end
